theory Spec2Isabelle
  imports Complex_Main "HOL-Library.AList"
begin

section \<open>ECMAScript numbers and the conversions the monitors rely on\<close>

text \<open>
  The monitors compute with ECMAScript numbers. A number is modelled as \<open>NaN\<close>, one of the
  two infinities, or an exact rational. Rounding to 53 bits, overflow to an infinity and the
  sign of zero are not represented: arithmetic on finite values is exact.
\<close>

datatype jsnum = NaN | PInf | NInf | Fin rat

fun js_neg :: "jsnum \<Rightarrow> jsnum" where
  "js_neg NaN = NaN"
| "js_neg PInf = NInf"
| "js_neg NInf = PInf"
| "js_neg (Fin x) = Fin (- x)"



text \<open>The sign of an infinite product or quotient, given the finite operand.\<close>

definition signed_inf :: "bool \<Rightarrow> jsnum" where
  "signed_inf positive = (if positive then PInf else NInf)"

fun js_mul :: "jsnum \<Rightarrow> jsnum \<Rightarrow> jsnum" where
  "js_mul NaN _ = NaN"
| "js_mul _ NaN = NaN"
| "js_mul PInf PInf = PInf"
| "js_mul PInf NInf = NInf"
| "js_mul NInf PInf = NInf"
| "js_mul NInf NInf = PInf"
| "js_mul PInf (Fin y) = (if y = 0 then NaN else signed_inf (0 < y))"
| "js_mul NInf (Fin y) = (if y = 0 then NaN else signed_inf (y < 0))"
| "js_mul (Fin x) PInf = (if x = 0 then NaN else signed_inf (0 < x))"
| "js_mul (Fin x) NInf = (if x = 0 then NaN else signed_inf (x < 0))"
| "js_mul (Fin x) (Fin y) = Fin (x * y)"

fun js_div :: "jsnum \<Rightarrow> jsnum \<Rightarrow> jsnum" where
  "js_div NaN _ = NaN"
| "js_div _ NaN = NaN"
| "js_div PInf PInf = NaN"
| "js_div PInf NInf = NaN"
| "js_div NInf PInf = NaN"
| "js_div NInf NInf = NaN"
| "js_div PInf (Fin y) = signed_inf (0 \<le> y)"
| "js_div NInf (Fin y) = signed_inf (y < 0)"
| "js_div (Fin x) PInf = Fin 0"
| "js_div (Fin x) NInf = Fin 0"
| "js_div (Fin x) (Fin y) =
     (if y = 0 then (if x = 0 then NaN else signed_inf (0 < x)) else Fin (x / y))"

text \<open>The relational operator \<open><\<close>: every comparison with \<open>NaN\<close> is false.\<close>

fun js_lt :: "jsnum \<Rightarrow> jsnum \<Rightarrow> bool" where
  "js_lt NaN _ = False"
| "js_lt _ NaN = False"
| "js_lt PInf _ = False"
| "js_lt _ NInf = False"
| "js_lt NInf _ = True"
| "js_lt _ PInf = True"
| "js_lt (Fin x) (Fin y) = (x < y)"


fun isNaN :: "jsnum \<Rightarrow> bool" where
  "isNaN NaN = True"
| "isNaN _ = False"

subsection \<open>Characters, digits and white space\<close>

text \<open>
  Strings are byte strings; only the ASCII white space of the language (TAB, LF, VT, FF,
  CR, SP) is recognised.
\<close>

definition is_space :: "char \<Rightarrow> bool" where
  "is_space c = (let n = (of_char c :: nat) in (9 \<le> n \<and> n \<le> 13) \<or> n = 32)"

text \<open>The value of a character as a digit in radices up to 36.\<close>

definition digit_of :: "char \<Rightarrow> nat option" where
  "digit_of c =
     (let n = (of_char c :: nat) in
      if 48 \<le> n \<and> n \<le> 57 then Some (n - 48)
      else if 97 \<le> n \<and> n \<le> 122 then Some (n - 87)
      else if 65 \<le> n \<and> n \<le> 90 then Some (n - 55)
      else None)"

definition in_radix :: "nat \<Rightarrow> char \<Rightarrow> bool" where
  "in_radix R c = (case digit_of c of None \<Rightarrow> False | Some d \<Rightarrow> d < R)"

definition is_digit :: "char \<Rightarrow> bool" where
  "is_digit c = in_radix 10 c"

fun digits_value :: "nat \<Rightarrow> nat \<Rightarrow> string \<Rightarrow> nat" where
  "digits_value R acc [] = acc"
| "digits_value R acc (c # cs) =
     digits_value R (acc * R + (case digit_of c of None \<Rightarrow> 0 | Some d \<Rightarrow> d)) cs"

definition trim :: "string \<Rightarrow> string" where
  "trim s = rev (dropWhile is_space (rev (dropWhile is_space s)))"

subsection \<open>parseInt without a radix argument\<close>

definition parseInt :: "string \<Rightarrow> jsnum" where
  "parseInt inputString =
     (let S = dropWhile is_space inputString;
          negative = (S \<noteq> [] \<and> hd S = CHR ''-'');
          S1 = (if S \<noteq> [] \<and> (hd S = CHR ''+'' \<or> hd S = CHR ''-'') then tl S else S);
          hex = (take 2 S1 = ''0x'' \<or> take 2 S1 = ''0X'');
          R = (if hex then 16 else 10);
          S2 = (if hex then drop 2 S1 else S1);
          Z = takeWhile (in_radix R) S2
      in if Z = [] then NaN
         else if negative then Fin (- of_nat (digits_value R 0 Z))
         else Fin (of_nat (digits_value R 0 Z)))"

subsection \<open>Conversion of a string to a number (the unary conversion applied by \<open>/\<close>)\<close>

text \<open>An unsigned decimal literal: digits, optional fraction, optional exponent.\<close>

definition str_unsigned_decimal :: "string \<Rightarrow> jsnum" where
  "str_unsigned_decimal t =
     (if t = ''Infinity'' then PInf
      else
        let ip = takeWhile is_digit t;
            r1 = dropWhile is_digit t;
            has_dot = (r1 \<noteq> [] \<and> hd r1 = CHR ''.'');
            fp = (if has_dot then takeWhile is_digit (tl r1) else []);
            r2 = (if has_dot then dropWhile is_digit (tl r1) else r1);
            has_exp = (r2 \<noteq> [] \<and> (hd r2 = CHR ''e'' \<or> hd r2 = CHR ''E''));
            r3 = (if has_exp then tl r2 else r2);
            eneg = (r3 \<noteq> [] \<and> hd r3 = CHR ''-'');
            ed = (if r3 \<noteq> [] \<and> (hd r3 = CHR ''+'' \<or> hd r3 = CHR ''-'') then tl r3 else r3);
            mant = (of_nat (digits_value 10 0 (ip @ fp)) :: rat) / 10 ^ length fp
        in if ip = [] \<and> fp = [] then NaN
           else if \<not> has_exp then (if r2 = [] then Fin mant else NaN)
           else if ed = [] \<or> \<not> list_all is_digit ed then NaN
           else if eneg then Fin (mant / 10 ^ digits_value 10 0 ed)
           else Fin (mant * 10 ^ digits_value 10 0 ed))"

text \<open>A literal with a radix prefix: all of the rest must be digits of that radix.\<close>

definition str_radix_literal :: "nat \<Rightarrow> string \<Rightarrow> jsnum" where
  "str_radix_literal R ds =
     (if ds \<noteq> [] \<and> list_all (in_radix R) ds then Fin (of_nat (digits_value R 0 ds)) else NaN)"

definition toNumber :: "string \<Rightarrow> jsnum" where
  "toNumber str =
     (let t = trim str in
      if t = [] then Fin 0
      else if take 2 t = ''0x'' \<or> take 2 t = ''0X'' then str_radix_literal 16 (drop 2 t)
      else if take 2 t = ''0o'' \<or> take 2 t = ''0O'' then str_radix_literal 8 (drop 2 t)
      else if take 2 t = ''0b'' \<or> take 2 t = ''0B'' then str_radix_literal 2 (drop 2 t)
      else if hd t = CHR ''-'' then js_neg (str_unsigned_decimal (tl t))
      else if hd t = CHR ''+'' then str_unsigned_decimal (tl t)
      else str_unsigned_decimal t)"

section \<open>The GPU monitor: state, timers and the sampling tick\<close>

text \<open>
  The text of a label is kept as the value it was formatted from: \<open>Percent v\<close> stands
  for the template that prints \<open>v\<close> followed by a percent sign, \<open>PercentFixed0 v\<close> for the
  same with \<open>v\<close> rounded to no decimals first.
\<close>

datatype label_text = Literal string | Percent jsnum | PercentFixed0 jsnum

text \<open>
  The monitor object together with the part of the main loop it talks to: the identifiers
  of the live timeout sources and the last identifier handed out.
\<close>

record gpu_monitor =
  history :: "jsnum list"
  refreshTimer :: nat
  meter_usage :: "jsnum list"
  usage_text :: label_text
  menuGpuUsage_text :: label_text
  menuGpuMemUsage_text :: label_text
  repaints_queued :: nat
  errors_logged :: nat
  glib_sources :: "nat list"
  glib_last_id :: nat

text \<open>Registering a timeout source yields a fresh, non-zero identifier.\<close>

definition timeout_add :: "gpu_monitor \<Rightarrow> nat \<times> gpu_monitor" where
  "timeout_add s =
     (let sid = Suc (glib_last_id s)
      in (sid, s\<lparr>glib_sources := glib_sources s @ [sid], glib_last_id := sid\<rparr>))"

definition source_remove :: "nat \<Rightarrow> gpu_monitor \<Rightarrow> gpu_monitor" where
  "source_remove sid s = s\<lparr>glib_sources := removeAll sid (glib_sources s)\<rparr>"

text \<open>\<open>_startTimers\<close>: the history is cleared first, outside the guard on the handle.\<close>

definition startTimers :: "gpu_monitor \<Rightarrow> gpu_monitor" where
  "startTimers s =
     (let s1 = s\<lparr>history := []\<rparr>
      in if refreshTimer s1 = 0
         then (case timeout_add s1 of (sid, s2) \<Rightarrow> s2\<lparr>refreshTimer := sid\<rparr>)
         else s1)"

definition stopTimers :: "gpu_monitor \<Rightarrow> gpu_monitor" where
  "stopTimers s =
     (if refreshTimer s \<noteq> 0
      then (source_remove (refreshTimer s) s)\<lparr>refreshTimer := 0\<rparr>
      else s)"

text \<open>The outcome of reading a metric file: the read throws, or returns the content.\<close>

datatype read_result = ReadThrows | ReadReturns string

text \<open>How a call of the timer callback ends.\<close>

datatype completion = Throws | ReturnsUndefined | ReturnsTrue

text \<open>\<open>Array.prototype.shift\<close>: removes the first element; an empty array stays empty.\<close>

fun shift :: "'a list \<Rightarrow> 'a list" where
  "shift [] = []"
| "shift (x # xs) = xs"

text \<open>
  The eviction loop of \<open>_refreshCharts\<close>, \<open>while (history.length >= HISTORY_MAX_SIZE)
  history.shift()\<close>. With a maximum of zero the condition stays true on the empty array and
  the loop does not end, so the loop is a partial function.
\<close>

partial_function (option) evict :: "nat \<Rightarrow> 'a list \<Rightarrow> 'a list option" where
  "evict HISTORY_MAX_SIZE h =
     (if HISTORY_MAX_SIZE \<le> length h then evict HISTORY_MAX_SIZE (shift h) else Some h)"

declare evict.simps [code]

text \<open>The loop followed by \<open>history.push(v)\<close>, as both versions of the tick do it.\<close>

definition history_push :: "nat \<Rightarrow> 'a \<Rightarrow> 'a list \<Rightarrow> 'a list option" where
  "history_push HISTORY_MAX_SIZE v h =
     (case evict HISTORY_MAX_SIZE h of None \<Rightarrow> None | Some h' \<Rightarrow> Some (h' @ [v]))"

text \<open>
  \<open>_refreshCharts\<close> of \<open>lib/gpu.js\<close>. Both files are read with \<open>readSync\<close> and converted with
  \<open>parseInt\<close>; nothing catches a throwing read, so it ends the call before any field is
  written. The result is \<open>None\<close> when the eviction loop does not end.
\<close>

definition refreshCharts ::
  "nat \<Rightarrow> read_result \<Rightarrow> read_result \<Rightarrow> gpu_monitor \<Rightarrow> (gpu_monitor \<times> completion) option" where
  "refreshCharts HISTORY_MAX_SIZE gpu_busy mem_busy s =
     (case gpu_busy of
        ReadThrows \<Rightarrow> Some (s, Throws)
      | ReadReturns c1 \<Rightarrow>
          (case mem_busy of
             ReadThrows \<Rightarrow> Some (s, Throws)
           | ReadReturns c2 \<Rightarrow>
               (let currentGpuUsage = parseInt c1;
                    currentGpuMemUsage = parseInt c2;
                    s1 = s\<lparr>meter_usage := [currentGpuUsage, currentGpuMemUsage],
                           usage_text := Percent currentGpuUsage,
                           menuGpuUsage_text := Percent currentGpuUsage,
                           menuGpuMemUsage_text := Percent currentGpuMemUsage\<rparr>
                in case history_push HISTORY_MAX_SIZE currentGpuUsage (history s1) of
                     None \<Rightarrow> None
                   | Some h \<Rightarrow>
                       Some (s1\<lparr>history := h, repaints_queued := Suc (repaints_queued s1)\<rparr>,
                             ReturnsTrue))))"

text \<open>
  \<open>_refreshCharts\<close> of the earlier single-device monitor. Each read sits in its own
  \<open>try\<close>; the handler logs the error and returns without a value. The content is trimmed
  and divided by 100, so the history holds fractions.
\<close>

definition refreshCharts_legacy ::
  "nat \<Rightarrow> read_result \<Rightarrow> read_result \<Rightarrow> gpu_monitor \<Rightarrow> (gpu_monitor \<times> completion) option" where
  "refreshCharts_legacy HISTORY_MAX_SIZE gpu_busy mem_busy s =
     (case gpu_busy of
        ReadThrows \<Rightarrow> Some (s\<lparr>errors_logged := Suc (errors_logged s)\<rparr>, ReturnsUndefined)
      | ReadReturns c1 \<Rightarrow>
          (case mem_busy of
             ReadThrows \<Rightarrow> Some (s\<lparr>errors_logged := Suc (errors_logged s)\<rparr>, ReturnsUndefined)
           | ReadReturns c2 \<Rightarrow>
               (let currentGpuUsage = js_div (toNumber (trim c1)) (Fin 100);
                    currentGpuMemUsage = js_div (toNumber (trim c2)) (Fin 100);
                    s1 = s\<lparr>meter_usage := [js_mul currentGpuUsage (Fin 100),
                                            js_mul currentGpuMemUsage (Fin 100)],
                           usage_text := PercentFixed0 (js_mul currentGpuUsage (Fin 100)),
                           menuGpuUsage_text := Percent (js_mul currentGpuUsage (Fin 100))\<rparr>
                in case history_push HISTORY_MAX_SIZE currentGpuUsage (history s1) of
                     None \<Rightarrow> None
                   | Some h \<Rightarrow>
                       Some (s1\<lparr>history := h, repaints_queued := Suc (repaints_queued s1)\<rparr>,
                             ReturnsTrue))))"

text \<open>
  \<open>refresh\<close> calls the tick and drops its result; \<open>refresh_all\<close> is a run of such calls,
  one per pair of read outcomes.
\<close>

definition refresh :: "nat \<Rightarrow> read_result \<times> read_result \<Rightarrow> gpu_monitor \<Rightarrow> gpu_monitor option" where
  "refresh HISTORY_MAX_SIZE r s =
     map_option fst (refreshCharts HISTORY_MAX_SIZE (fst r) (snd r) s)"

definition refresh_legacy ::
  "nat \<Rightarrow> read_result \<times> read_result \<Rightarrow> gpu_monitor \<Rightarrow> gpu_monitor option" where
  "refresh_legacy HISTORY_MAX_SIZE r s =
     map_option fst (refreshCharts_legacy HISTORY_MAX_SIZE (fst r) (snd r) s)"

fun run_all :: "('r \<Rightarrow> 's \<Rightarrow> 's option) \<Rightarrow> 'r list \<Rightarrow> 's \<Rightarrow> 's option" where
  "run_all step [] s = Some s"
| "run_all step (r # rs) s = (case step r s of None \<Rightarrow> None | Some s' \<Rightarrow> run_all step rs s')"

definition refresh_all ::
  "nat \<Rightarrow> (read_result \<times> read_result) list \<Rightarrow> gpu_monitor \<Rightarrow> gpu_monitor option" where
  "refresh_all HISTORY_MAX_SIZE rs s = run_all (refresh HISTORY_MAX_SIZE) rs s"

definition refresh_all_legacy ::
  "nat \<Rightarrow> (read_result \<times> read_result) list \<Rightarrow> gpu_monitor \<Rightarrow> gpu_monitor option" where
  "refresh_all_legacy HISTORY_MAX_SIZE rs s = run_all (refresh_legacy HISTORY_MAX_SIZE) rs s"

text \<open>A tick whose two reads return the given contents.\<close>

definition successful :: "string \<times> string \<Rightarrow> read_result \<times> read_result" where
  "successful c = (ReadReturns (fst c), ReadReturns (snd c))"

text \<open>The sample each version derives from the content of the usage file.\<close>

definition sample_of :: "string \<Rightarrow> jsnum" where
  "sample_of c = parseInt c"

definition sample_legacy :: "string \<Rightarrow> jsnum" where
  "sample_legacy c = js_div (toNumber (trim c)) (Fin 100)"

text \<open>The state right after construction, before \<open>_startTimers\<close> runs.\<close>

definition initial_monitor :: gpu_monitor where
  "initial_monitor =
     \<lparr>history = [], refreshTimer = 0, meter_usage = [], usage_text = Literal [],
      menuGpuUsage_text = Literal ''0%'', menuGpuMemUsage_text = Literal ''0%'',
      repaints_queued = 0, errors_logged = 0, glib_sources = [], glib_last_id = 0\<rparr>"

text \<open>The last \<open>n\<close> elements of a list, in their order (the whole list when it is shorter).\<close>

definition last_n :: "nat \<Rightarrow> 'a list \<Rightarrow> 'a list" where
  "last_n n xs = drop (length xs - n) xs"

section \<open>Painting the history chart\<close>











section \<open>GPU devices and their discovery\<close>

datatype gpu_class = GpuDevice | AmdGpu

record gpu_device =
  cls :: gpu_class
  sysfsPath :: string
  name :: "string option"

definition new_device :: "gpu_class \<Rightarrow> string \<Rightarrow> gpu_device" where
  "new_device c path = \<lparr>cls = c, sysfsPath = path, name = None\<rparr>"

datatype jsval = Null | Number jsnum

text \<open>
  \<open>getUsage\<close>; \<open>None\<close> is a thrown exception. The file system is a function from a path to
  the outcome of reading it.
\<close>

definition getUsage :: "(string \<Rightarrow> read_result) \<Rightarrow> gpu_device \<Rightarrow> jsval option" where
  "getUsage fs d =
     (case cls d of
        GpuDevice \<Rightarrow> Some Null
      | AmdGpu \<Rightarrow>
          (case fs (sysfsPath d @ ''/device/gpu_busy_percent'') of
             ReadThrows \<Rightarrow> None
           | ReadReturns c \<Rightarrow> Some (Number (parseInt c))))"

definition isOK :: "(string \<Rightarrow> read_result) \<Rightarrow> gpu_device \<Rightarrow> bool" where
  "isOK fs d = (case getUsage fs d of None \<Rightarrow> False | Some v \<Rightarrow> v \<noteq> Null)"

text \<open>\<open>this.name || this.sysfsPath\<close>: an unset and an empty name are both falsy.\<close>

definition getName :: "gpu_device \<Rightarrow> string" where
  "getName d = (case name d of None \<Rightarrow> sysfsPath d | Some n \<Rightarrow> if n = [] then sysfsPath d else n)"

text \<open>\<open>String.prototype.split\<close> on a one-character separator.\<close>

fun split_on :: "char \<Rightarrow> string \<Rightarrow> string list" where
  "split_on sep [] = [[]]"
| "split_on sep (c # cs) =
     (if c = sep then [] # split_on sep cs
      else (case split_on sep cs of [] \<Rightarrow> [[c]] | l # ls \<Rightarrow> (c # l) # ls))"

text \<open>How the subprocess ends, and the state of the promise \<open>lookupName\<close> returns.\<close>

datatype proc_result = SpawnThrows | CommunicateRejects | ExitFailure | ExitSuccess string

datatype settled = Pending | Fulfilled string | Rejected string

text \<open>
  \<open>lookupName\<close>. Every matching line of the output overwrites the name; only the first
  call of \<open>resolve\<close> settles the promise. With no matching line the promise stays pending.
  The base class does nothing.
\<close>

definition lookupName ::
  "(string \<Rightarrow> read_result) \<Rightarrow> (string list \<Rightarrow> proc_result) \<Rightarrow> gpu_device \<Rightarrow> gpu_device \<times> settled" where
  "lookupName fs run d =
     (case cls d of
        GpuDevice \<Rightarrow> (d, Pending)
      | AmdGpu \<Rightarrow>
          (case fs (sysfsPath d @ ''/device/vendor'') of
             ReadThrows \<Rightarrow> (d, Rejected ''lookupName threw exception: '')
           | ReadReturns vendor \<Rightarrow>
               (case fs (sysfsPath d @ ''/device/device'') of
                  ReadThrows \<Rightarrow> (d, Rejected ''lookupName threw exception: '')
                | ReadReturns device \<Rightarrow>
                    (case run [''lspci'', ''-v'', ''-mm'', ''-d'', vendor @ '':'' @ device] of
                       SpawnThrows \<Rightarrow> (d, Rejected ''lookupName threw exception: '')
                     | CommunicateRejects \<Rightarrow> (d, Rejected ''proc promise caught: '')
                     | ExitFailure \<Rightarrow> (d, Rejected ''proc was not successful'')
                     | ExitSuccess out \<Rightarrow>
                         (let names = map (drop 8)
                                        (filter (\<lambda>line. take 7 line = ''Device:'')
                                           (split_on CHR 0x0A out))
                          in if names = [] then (d, Pending)
                             else (d\<lparr>name := Some (last names)\<rparr>, Fulfilled (hd names)))))))"

text \<open>
  A regular expression without repetition, matched against the whole string, as
  \<open>^\<dots>$\<close> does: a sequence of literal characters and character ranges.
\<close>

datatype re_atom = Lit char | Range char char

fun atom_matches :: "re_atom \<Rightarrow> char \<Rightarrow> bool" where
  "atom_matches (Lit a) c = (c = a)"
| "atom_matches (Range lo hi) c =
     ((of_char lo :: nat) \<le> of_char c \<and> (of_char c :: nat) \<le> of_char hi)"

fun regexp_test :: "re_atom list \<Rightarrow> string \<Rightarrow> bool" where
  "regexp_test [] [] = True"
| "regexp_test (a # as) (c # cs) = (atom_matches a c \<and> regexp_test as cs)"
| "regexp_test _ _ = False"

text \<open>The pattern \<open>^card[0-9]$\<close>.\<close>

definition card_pattern :: "re_atom list" where
  "card_pattern = [Lit CHR ''c'', Lit CHR ''a'', Lit CHR ''r'', Lit CHR ''d'',
                   Range CHR ''0'' CHR ''9'']"

definition basePath :: string where
  "basePath = ''/sys/class/drm/''"

text \<open>
  The loop of \<open>findGpuDevices\<close> over the directory entries. The collection is a map that
  keeps insertion order; setting a key that is present replaces its value in place.
\<close>

fun collect ::
  "(string \<Rightarrow> read_result) \<Rightarrow> string list \<Rightarrow> (string \<times> gpu_device) list
     \<Rightarrow> (string \<times> gpu_device) list" where
  "collect fs [] collection = collection"
| "collect fs (entry # content) collection =
     (if regexp_test card_pattern entry
      then (let device = new_device AmdGpu (basePath @ entry)
            in if isOK fs device
               then collect fs content (AList.update (basePath @ entry) device collection)
               else collect fs content collection)
      else collect fs content collection)"

datatype list_result = ListRejects string | ListResolves "string list"

text \<open>\<open>findGpuDevices\<close>: \<open>Inl\<close> is the rejection of the promise.\<close>

definition findGpuDevices ::
  "(string \<Rightarrow> read_result) \<Rightarrow> list_result \<Rightarrow> string + (string \<times> gpu_device) list" where
  "findGpuDevices fs listing =
     (case listing of
        ListRejects err \<Rightarrow> Inl err
      | ListResolves content \<Rightarrow> Inr (collect fs content []))"

text \<open>The entries the loop constructs a device for.\<close>

definition candidates :: "string list \<Rightarrow> string list" where
  "candidates content = filter (regexp_test card_pattern) content"

section \<open>Human-readable byte counts\<close>

definition ONE_MB_IN_B :: jsnum where "ONE_MB_IN_B = Fin 1000000"
definition TEN_MB_IN_B :: jsnum where "TEN_MB_IN_B = Fin 10000000"
definition ONE_GB_IN_B :: jsnum where "ONE_GB_IN_B = Fin 1000000000"
definition TEN_GB_IN_B :: jsnum where "TEN_GB_IN_B = Fin 10000000000"
definition ONE_TB_IN_B :: jsnum where "ONE_TB_IN_B = Fin 1000000000000"
definition TEN_TB_IN_B :: jsnum where "TEN_TB_IN_B = Fin 10000000000000"

text \<open>
  \<open>bytesToHumanString\<close>. The formatting of a number with a fixed count of decimals is a
  parameter, \<open>toFixed\<close>. A \<open>NaN\<close> argument is returned as it is (\<open>Inl\<close>); every other
  result is a string.
\<close>

definition bytesToHumanString ::
  "(jsnum \<Rightarrow> nat \<Rightarrow> string) \<Rightarrow> jsnum \<Rightarrow> string \<Rightarrow> bool \<Rightarrow> jsnum + string" where
  "bytesToHumanString toFixed bytes unit imprecise =
     (if isNaN bytes then Inl bytes
      else
        let precision = (if imprecise then 0 else 1);
            quantity = (if unit = ''bits'' then js_mul bytes (Fin 8) else bytes);
            suffix = (if unit = ''bits'' then ''b'' else ''B'')
        in if js_lt quantity (Fin 1) then Inr (''0 K'' @ suffix)
           else if js_lt quantity (Fin 1000) then Inr (''< 1 K'' @ suffix)
           else if js_lt quantity ONE_MB_IN_B
             then Inr (toFixed (js_div quantity (Fin 1000)) 0 @ '' K'' @ suffix)
           else if js_lt quantity TEN_MB_IN_B
             then Inr (toFixed (js_div quantity ONE_MB_IN_B) precision @ '' M'' @ suffix)
           else if js_lt quantity ONE_GB_IN_B
             then Inr (toFixed (js_div quantity ONE_MB_IN_B) 0 @ '' M'' @ suffix)
           else if js_lt quantity TEN_GB_IN_B
             then Inr (toFixed (js_div quantity ONE_GB_IN_B) precision @ '' G'' @ suffix)
           else if js_lt quantity ONE_TB_IN_B
             then Inr (toFixed (js_div quantity ONE_GB_IN_B) 0 @ '' G'' @ suffix)
           else if js_lt quantity TEN_TB_IN_B
             then Inr (toFixed (js_div quantity ONE_TB_IN_B) precision @ '' T'' @ suffix)
           else Inr (toFixed (js_div quantity ONE_TB_IN_B) 0 @ '' T'' @ suffix))"

section \<open>Example states\<close>

text \<open>
  The monitor after \<open>_startTimers\<close> and one tick that read 50 and 0: the timer runs and the
  history holds one sample.
\<close>

definition running_monitor :: gpu_monitor where
  "running_monitor =
     \<lparr>history = [Fin 50], refreshTimer = 1, meter_usage = [Fin 50, Fin 0],
      usage_text = Percent (Fin 50), menuGpuUsage_text = Percent (Fin 50),
      menuGpuMemUsage_text = Percent (Fin 0), repaints_queued = 1, errors_logged = 0,
      glib_sources = [1], glib_last_id = 1\<rparr>"


text \<open>A file system in which only the usage file of \<open>card0\<close> can be read.\<close>

definition demo_fs :: "string \<Rightarrow> read_result" where
  "demo_fs path = (if path = ''/sys/class/drm/card0/device/gpu_busy_percent''
                   then ReadReturns ''87'' else ReadThrows)"

section \<open>The eviction loop and the history buffer\<close>

text \<open>The loop returns only when the maximum is positive.\<close>

lemma evict_returns_aux: "evict mx h = Some y \<Longrightarrow> mx \<noteq> 0"
proof (rule evict.raw_induct[where P = "\<lambda>m h y. m \<noteq> 0"])
  show "evict mx h = Some y \<Longrightarrow> evict mx h = Some y" .
next
  fix ev :: "nat \<Rightarrow> 'a list \<Rightarrow> 'a list option" and m h r
  assume ih: "\<And>m h y. ev m h = Some y \<Longrightarrow> m \<noteq> 0"
    and step: "(if m \<le> length h then ev m (shift h) else Some h) = Some r"
  show "m \<noteq> 0"
  proof (cases "m \<le> length h")
    case True
    with step have "ev m (shift h) = Some r" by simp
    then show ?thesis by (rule ih)
  next
    case False
    then show ?thesis by simp
  qed
qed

lemma evict_zero: "evict 0 h = None"
  using evict_returns_aux[of 0 h] by (cases "evict 0 h") auto

text \<open>With a positive maximum it returns the buffer cut down to one less than the maximum.\<close>

lemma evict_pos: "0 < mx \<Longrightarrow> evict mx h = Some (drop (Suc (length h) - mx) h)"
proof (induction h)
  case Nil then show ?case by (subst evict.simps) simp
next
  case (Cons a h)
  show ?case
  proof (cases "mx \<le> length (a # h)")
    case True
    then have "evict mx (a # h) = evict mx h" by (subst evict.simps) simp
    also have "\<dots> = Some (drop (Suc (length h) - mx) h)" using Cons by simp
    finally show ?thesis using True by (simp add: Suc_diff_le)
  next
    case False
    then show ?thesis by (subst evict.simps) simp
  qed
qed

lemma history_push_pos: "0 < mx \<Longrightarrow> history_push mx v h = Some (last_n mx (h @ [v]))"
  by (simp add: history_push_def evict_pos last_n_def)

lemma last_n_append: "last_n n (last_n n xs @ ys) = last_n n (xs @ ys)"
  by (cases "length xs \<le> n") (simp_all add: last_n_def add.commute)

lemma length_last_n: "length (last_n n xs) \<le> n"
  by (simp add: last_n_def)

lemma last_n_long: "n \<le> length ys \<Longrightarrow> last_n n (xs @ ys) = last_n n ys"
  by (simp add: last_n_def)

lemma run_all_bounded:
  assumes step: "\<And>c s. \<exists>s'. step (g c) s = Some s' \<and> history s' = last_n mx (history s @ [f c])"
    and bounded: "length (history s) \<le> mx"
  shows "\<exists>s'. run_all step (map g cs) s = Some s' \<and> history s' = last_n mx (history s @ map f cs)"
  using bounded
proof (induction cs arbitrary: s)
  case Nil
  then show ?case by (simp add: last_n_def)
next
  case (Cons c cs)
  from step[of c s] obtain s1 where
    s1: "step (g c) s = Some s1" "history s1 = last_n mx (history s @ [f c])"
    by blast
  have "length (history s1) \<le> mx" using s1(2) by (simp add: length_last_n)
  from Cons.IH[OF this] obtain s' where
    "run_all step (map g cs) s1 = Some s'" "history s' = last_n mx (history s1 @ map f cs)"
    by blast
  then show ?case using s1 by (simp add: last_n_append)
qed

lemma run_all_nonempty:
  assumes step: "\<And>c s. \<exists>s'. step (g c) s = Some s' \<and> history s' = last_n mx (history s @ [f c])"
    and ne: "cs \<noteq> []"
  shows "\<exists>s'. run_all step (map g cs) s = Some s' \<and> history s' = last_n mx (history s @ map f cs)"
proof -
  obtain c cs' where cs: "cs = c # cs'" using ne by (cases cs) auto
  from step[of c s] obtain s1 where
    s1: "step (g c) s = Some s1" "history s1 = last_n mx (history s @ [f c])"
    by blast
  have "length (history s1) \<le> mx" using s1(2) by (simp add: length_last_n)
  from run_all_bounded[of step g mx f s1 cs', OF step this] obtain s' where
    "run_all step (map g cs') s1 = Some s'" "history s' = last_n mx (history s1 @ map f cs')"
    by blast
  then show ?thesis using s1 cs by (simp add: last_n_append)
qed

lemma run_all_most_recent:
  assumes step: "\<And>c s. \<exists>s'. step (g c) s = Some s' \<and> history s' = last_n mx (history s @ [f c])"
    and long: "mx < length cs"
  shows "\<exists>s'. run_all step (map g cs) s = Some s' \<and> history s' = map f (drop (length cs - mx) cs)"
proof -
  have ne: "cs \<noteq> []" using long by auto
  from run_all_nonempty[of step g mx f cs s, OF step ne] obtain s' where
    s': "run_all step (map g cs) s = Some s'" "history s' = last_n mx (history s @ map f cs)"
    by blast
  have "last_n mx (history s @ map f cs) = last_n mx (map f cs)"
    using long by (simp add: last_n_long)
  also have "\<dots> = map f (drop (length cs - mx) cs)"
    by (simp add: last_n_def drop_map)
  finally show ?thesis using s' by simp
qed

lemma run_all_never_exceeds:
  assumes step: "\<And>c s. \<exists>s'. step (g c) s = Some s' \<and> history s' = last_n mx (history s @ [f c])"
    and bounded: "length (history s) \<le> mx"
  shows "\<exists>t. run_all step (map g (take k cs)) s = Some t \<and> length (history t) \<le> mx"
proof -
  from run_all_bounded[of step g mx f s "take k cs", OF step bounded] obtain t where
    "run_all step (map g (take k cs)) s = Some t"
    "history t = last_n mx (history s @ map f (take k cs))" by blast
  then show ?thesis by (simp add: length_last_n)
qed

lemma last_n_snoc_nonempty: "0 < n \<Longrightarrow> last_n n (xs @ [v]) \<noteq> []"
  by (simp add: last_n_def)

lemma refreshCharts_returns:
  "0 < mx \<Longrightarrow> \<exists>s'. refreshCharts mx (ReadReturns c1) (ReadReturns c2) s = Some (s', ReturnsTrue)
      \<and> history s' = last_n mx (history s @ [sample_of c1])
      \<and> refreshTimer s' = refreshTimer s"
  by (simp add: refreshCharts_def sample_of_def history_push_pos Let_def)

lemma refreshCharts_legacy_returns:
  "0 < mx \<Longrightarrow> \<exists>s'. refreshCharts_legacy mx (ReadReturns c1) (ReadReturns c2) s = Some (s', ReturnsTrue)
      \<and> history s' = last_n mx (history s @ [sample_legacy c1])
      \<and> refreshTimer s' = refreshTimer s"
  by (simp add: refreshCharts_legacy_def sample_legacy_def history_push_pos Let_def)

lemma refreshCharts_throws:
  "r1 = ReadThrows \<or> r2 = ReadThrows \<Longrightarrow> refreshCharts mx r1 r2 s = Some (s, Throws)"
  by (auto simp: refreshCharts_def split: read_result.splits)

lemma refreshCharts_legacy_throws:
  "r1 = ReadThrows \<or> r2 = ReadThrows \<Longrightarrow>
     refreshCharts_legacy mx r1 r2 s = Some (s\<lparr>errors_logged := Suc (errors_logged s)\<rparr>, ReturnsUndefined)"
  by (auto simp: refreshCharts_legacy_def split: read_result.splits)

text \<open>A successful call through \<open>refresh\<close> appends the sample of the usage file.\<close>

lemma refresh_successful:
  "0 < mx \<Longrightarrow> \<exists>s'. refresh mx (successful c) s = Some s'
      \<and> history s' = last_n mx (history s @ [sample_of (fst c)])"
  by (simp add: refresh_def refreshCharts_def successful_def sample_of_def history_push_pos Let_def)

lemma refresh_legacy_successful:
  "0 < mx \<Longrightarrow> \<exists>s'. refresh_legacy mx (successful c) s = Some s'
      \<and> history s' = last_n mx (history s @ [sample_legacy (fst c)])"
  by (simp add: refresh_legacy_def refreshCharts_legacy_def successful_def sample_legacy_def
      history_push_pos Let_def)

section \<open>Claims about the history buffer and the timer\<close>

text \<open>
  Claim C1. Let the maximum history size be positive. After more successful ticks than the
  maximum, started from a buffer within the bound, the history holds exactly the samples of
  the most recent ticks, as many as the maximum, oldest first; and after every prefix of
  the run the length of the history is at most the maximum. Both versions of the tick
  behave so: \<open>lib/gpu.js\<close> keeps the parsed percentages, the earlier monitor the fractions.
  Each run returns, so the eviction loop ends in every tick.
\<close>

theorem history_keeps_most_recent:
  assumes "0 < mx" and "mx < length cs" and "length (history s) \<le> mx"
  shows "(\<exists>s'. refresh_all mx (map successful cs) s = Some s'
           \<and> history s' = map (\<lambda>c. sample_of (fst c)) (drop (length cs - mx) cs))
       \<and> (\<forall>k \<le> length cs. \<exists>t. refresh_all mx (map successful (take k cs)) s = Some t
              \<and> length (history t) \<le> mx)
       \<and> (\<exists>s'. refresh_all_legacy mx (map successful cs) s = Some s'
           \<and> history s' = map (\<lambda>c. sample_legacy (fst c)) (drop (length cs - mx) cs))
       \<and> (\<forall>k \<le> length cs. \<exists>t. refresh_all_legacy mx (map successful (take k cs)) s = Some t
              \<and> length (history t) \<le> mx)"
proof -
  have a: "\<exists>s'. refresh_all mx (map successful cs) s = Some s'
           \<and> history s' = map (\<lambda>c. sample_of (fst c)) (drop (length cs - mx) cs)"
    unfolding refresh_all_def
    by (rule run_all_most_recent[where step = "refresh mx" and g = successful
          and f = "\<lambda>c. sample_of (fst c)", OF refresh_successful[OF assms(1)] assms(2)])
  have b: "\<exists>t. refresh_all mx (map successful (take k cs)) s = Some t \<and> length (history t) \<le> mx" for k
    unfolding refresh_all_def
    by (rule run_all_never_exceeds[where step = "refresh mx" and g = successful
          and f = "\<lambda>c. sample_of (fst c)", OF refresh_successful[OF assms(1)] assms(3)])
  have c: "\<exists>s'. refresh_all_legacy mx (map successful cs) s = Some s'
           \<and> history s' = map (\<lambda>c. sample_legacy (fst c)) (drop (length cs - mx) cs)"
    unfolding refresh_all_legacy_def
    by (rule run_all_most_recent[where step = "refresh_legacy mx" and g = successful
          and f = "\<lambda>c. sample_legacy (fst c)", OF refresh_legacy_successful[OF assms(1)] assms(2)])
  have d: "\<exists>t. refresh_all_legacy mx (map successful (take k cs)) s = Some t \<and> length (history t) \<le> mx" for k
    unfolding refresh_all_legacy_def
    by (rule run_all_never_exceeds[where step = "refresh_legacy mx" and g = successful
          and f = "\<lambda>c. sample_legacy (fst c)", OF refresh_legacy_successful[OF assms(1)] assms(3)])
  show ?thesis using a b c d by blast
qed

text \<open>
  The scenario of the specification: a maximum of 5 and reads of 10, 20, 30, 40, 50, 60
  leave the buffer 20, 30, 40, 50, 60.
\<close>

theorem history_keeps_most_recent_witness:
  "(0::nat) < 5 \<and> 5 < length [(''10'',''1''),(''20'',''1''),(''30'',''1''),(''40'',''1''),(''50'',''1''),(''60'',''1'')]
   \<and> length (history initial_monitor) \<le> 5
   \<and> map_option history (refresh_all 5 (map successful [(''10'',''1''),(''20'',''1''),(''30'',''1''),(''40'',''1''),(''50'',''1''),(''60'',''1'')]) initial_monitor)
      = Some [Fin 20, Fin 30, Fin 40, Fin 50, Fin 60]"
proof -
  have h: "(0::nat) < 5" "5 < length [(''10'',''1''),(''20'',''1''),(''30'',''1''),(''40'',''1''),(''50'',''1''),(''60'',''1'')]"
    "length (history initial_monitor) \<le> 5" by (simp_all add: initial_monitor_def)
  have e: "sample_of ''10'' = Fin 10" "sample_of ''20'' = Fin 20" "sample_of ''30'' = Fin 30" "sample_of ''40'' = Fin 40"  "sample_of ''50'' = Fin 50"  "sample_of ''60'' = Fin 60"
    by code_simp+
  from history_keeps_most_recent[OF h] show ?thesis using h e by auto
qed




text \<open>
  Claim C3, as the code has it. When the timer handle is not zero, \<open>_startTimers\<close>
  registers no second timer: the handle and the sources of the main loop stay as they are.
  The history is the one field it writes: it is reset to the empty sequence.
\<close>

theorem start_while_running_keeps_timer: "refreshTimer s \<noteq> 0 \<Longrightarrow> startTimers s = s\<lparr>history := []\<rparr>"
  by (simp add: startTimers_def)

text \<open>
  The claim as stated fails on the history: the running monitor reached by one tick holds
  one sample, and a second \<open>_startTimers\<close> empties it.
\<close>

theorem start_while_running_clears_history:
  "refresh 5 (successful (''50'', ''0'')) (startTimers initial_monitor) = Some running_monitor
   \<and> refreshTimer running_monitor \<noteq> 0
   \<and> history running_monitor = [Fin 50]
   \<and> history (startTimers running_monitor) = []
   \<and> startTimers running_monitor \<noteq> running_monitor"
  by code_simp

theorem start_while_running_keeps_timer_witness:
  "refreshTimer running_monitor \<noteq> 0
   \<and> startTimers running_monitor = running_monitor\<lparr>history := []\<rparr>
   \<and> glib_sources (startTimers running_monitor) = [1]"
proof -
  have h: "refreshTimer running_monitor \<noteq> 0" by (simp add: running_monitor_def)
  from start_while_running_keeps_timer[OF h] show ?thesis using h by (simp add: running_monitor_def)
qed

text \<open>
  Claim C4. \<open>_startTimers\<close> leaves the history empty whatever it held before. No other
  operation clears it: \<open>_stopTimers\<close> keeps it, and a tick (with a positive maximum, for
  any outcome of the two reads) returns with the history either as it was or not empty.
\<close>

theorem start_resets_history:
  "history (startTimers s) = []
   \<and> history (stopTimers s) = history s
   \<and> (0 < mx \<longrightarrow>
        (\<exists>s' c. refreshCharts mx r1 r2 s = Some (s', c)
            \<and> (history s' = history s \<or> history s' \<noteq> []))
      \<and> (\<exists>s' c. refreshCharts_legacy mx r1 r2 s = Some (s', c)
            \<and> (history s' = history s \<or> history s' \<noteq> [])))"
proof (intro conjI impI)
  show "history (startTimers s) = []"
    by (simp add: startTimers_def timeout_add_def Let_def)
  show "history (stopTimers s) = history s"
    by (simp add: stopTimers_def source_remove_def)
next
  assume pos: "0 < mx"
  show "\<exists>s' c. refreshCharts mx r1 r2 s = Some (s', c) \<and> (history s' = history s \<or> history s' \<noteq> [])"
  proof (cases "r1 = ReadThrows \<or> r2 = ReadThrows")
    case True
    then show ?thesis using refreshCharts_throws[of r1 r2 mx s] by simp
  next
    case False
    then obtain c1 c2 where "r1 = ReadReturns c1" "r2 = ReadReturns c2"
      by (cases r1; cases r2) auto
    then show ?thesis
      using refreshCharts_returns[OF pos, of c1 c2 s] last_n_snoc_nonempty[OF pos] by fastforce
  qed
  show "\<exists>s' c. refreshCharts_legacy mx r1 r2 s = Some (s', c) \<and> (history s' = history s \<or> history s' \<noteq> [])"
  proof (cases "r1 = ReadThrows \<or> r2 = ReadThrows")
    case True
    then show ?thesis using refreshCharts_legacy_throws[of r1 r2 mx s] by simp
  next
    case False
    then obtain c1 c2 where "r1 = ReadReturns c1" "r2 = ReadReturns c2"
      by (cases r1; cases r2) auto
    then show ?thesis
      using refreshCharts_legacy_returns[OF pos, of c1 c2 s] last_n_snoc_nonempty[OF pos] by fastforce
  qed
qed

theorem start_resets_history_witness:
  "history running_monitor = [Fin 50] \<and> history (startTimers running_monitor) = []
   \<and> (\<exists>s' c. refreshCharts 1 (ReadReturns ''7'') (ReadReturns ''0'') running_monitor = Some (s', c)
            \<and> (history s' = [Fin 50] \<or> history s' \<noteq> []))"
proof -
  have h: "history running_monitor = [Fin 50]" by (simp add: running_monitor_def)
  show ?thesis
    using start_resets_history[of running_monitor 1 "ReadReturns ''7''" "ReadReturns ''0''"] h by simp
qed




section \<open>Claims about the chart\<close>











section \<open>Claims about device discovery and names\<close>

text \<open>The pattern accepts exactly the word \<open>card\<close> followed by one decimal digit.\<close>

lemma regexp_test_all2: "regexp_test as cs = list_all2 atom_matches as cs"
  by (induction as cs rule: regexp_test.induct) simp_all

lemma digit_range:
  "((48::nat) \<le> of_char d \<and> (of_char d :: nat) \<le> 57) \<longleftrightarrow> d \<in> set ''0123456789''"
proof
  assume a: "(48::nat) \<le> of_char d \<and> (of_char d :: nat) \<le> 57"
  have "(of_char d :: nat) \<in> of_char ` set ''0123456789''"
    using a by simp arith
  then show "d \<in> set ''0123456789''"
    by (simp only: inj_image_mem_iff[OF inj_of_char])
next
  assume "d \<in> set ''0123456789''"
  then show "(48::nat) \<le> of_char d \<and> (of_char d :: nat) \<le> 57" by auto
qed

lemma regexp_card:
  "regexp_test card_pattern e \<longleftrightarrow> (\<exists>d \<in> set ''0123456789''. e = ''card'' @ [d])"
proof -
  have "regexp_test card_pattern e
     \<longleftrightarrow> (\<exists>d. e = ''card'' @ [d] \<and> (48::nat) \<le> of_char d \<and> (of_char d :: nat) \<le> 57)"
    unfolding card_pattern_def by (auto simp: regexp_test_all2 list_all2_Cons1)
  then show ?thesis using digit_range by blast
qed

text \<open>A device of the vendor class passes the probe exactly when its usage file can be read.\<close>

lemma isOK_amd:
  "isOK fs (new_device AmdGpu p) = (fs (p @ ''/device/gpu_busy_percent'') \<noteq> ReadThrows)"
  by (simp add: isOK_def getUsage_def new_device_def split: read_result.splits)

lemma update_fresh: "k \<notin> fst ` set al \<Longrightarrow> AList.update k v al = al @ [(k, v)]"
  by (induction al) auto

lemma collect_keys:
  "fst ` set (collect fs content acc)
     = fst ` set acc
       \<union> {basePath @ e | e. e \<in> set (candidates content)
                            \<and> isOK fs (new_device AmdGpu (basePath @ e))}"
proof (induction content arbitrary: acc)
  case Nil
  then show ?case by (simp add: candidates_def)
next
  case (Cons e content)
  show ?case
    unfolding collect.simps Let_def
    by (auto simp add: Cons.IH candidates_def dom_update)
qed

lemma collect_distinct:
  "distinct content \<Longrightarrow> \<forall>e \<in> set content. basePath @ e \<notin> fst ` set acc \<Longrightarrow>
     collect fs content acc
       = acc @ map (\<lambda>e. (basePath @ e, new_device AmdGpu (basePath @ e)))
                   (filter (\<lambda>e. isOK fs (new_device AmdGpu (basePath @ e))) (candidates content))"
proof (induction content arbitrary: acc)
  case Nil
  then show ?case by (simp add: candidates_def)
next
  case (Cons e content)
  have fresh: "basePath @ e \<notin> fst ` set acc" using Cons.prems(2) by simp
  have d: "distinct content" using Cons.prems(1) by simp
  show ?case
  proof (cases "regexp_test card_pattern e \<and> isOK fs (new_device AmdGpu (basePath @ e))")
    case True
    let ?acc = "acc @ [(basePath @ e, new_device AmdGpu (basePath @ e))]"
    have "\<forall>x \<in> set content. basePath @ x \<notin> fst ` set ?acc"
      using Cons.prems by auto
    from Cons.IH[OF d this] show ?thesis
      using True by (simp add: update_fresh[OF fresh] candidates_def)
  next
    case False
    have "\<forall>x \<in> set content. basePath @ x \<notin> fst ` set acc" using Cons.prems(2) by simp
    from Cons.IH[OF d this] show ?thesis
      using False by (auto simp add: candidates_def)
  qed
qed

text \<open>
  Claim C7. When the listing of the base directory fails, discovery fails with the same
  error. Otherwise the candidates are exactly the entries that are the word \<open>card\<close>
  followed by one decimal digit; the keys of the resulting collection are exactly the paths
  of the candidates that pass the probe, and when the listing has no repeated entry the
  collection holds one vendor device per such candidate, in the order of the listing. A
  candidate passes the probe exactly when reading its usage file does not throw. Of
  \<open>card0\<close>, \<open>card1\<close> and \<open>renderD128\<close> the candidates are \<open>card0\<close> and \<open>card1\<close>.
\<close>

theorem discovery_keeps_probed_cards:
  "findGpuDevices fs (ListRejects err) = Inl err
   \<and> (\<exists>coll. findGpuDevices fs (ListResolves content) = Inr coll
        \<and> fst ` set coll
            = {basePath @ e | e. e \<in> set (candidates content)
                                 \<and> isOK fs (new_device AmdGpu (basePath @ e))}
        \<and> (distinct content \<longrightarrow>
             coll = map (\<lambda>e. (basePath @ e, new_device AmdGpu (basePath @ e)))
                        (filter (\<lambda>e. isOK fs (new_device AmdGpu (basePath @ e)))
                                (candidates content))))
   \<and> (e \<in> set (candidates content)
        \<longleftrightarrow> e \<in> set content \<and> (\<exists>d \<in> set ''0123456789''. e = ''card'' @ [d]))
   \<and> (isOK fs (new_device AmdGpu p) \<longleftrightarrow> fs (p @ ''/device/gpu_busy_percent'') \<noteq> ReadThrows)
   \<and> candidates [''card0'', ''card1'', ''renderD128''] = [''card0'', ''card1'']"
proof (intro conjI)
  show "findGpuDevices fs (ListRejects err) = Inl err" by (simp add: findGpuDevices_def)
  show "\<exists>coll. findGpuDevices fs (ListResolves content) = Inr coll
        \<and> fst ` set coll
            = {basePath @ e | e. e \<in> set (candidates content)
                                 \<and> isOK fs (new_device AmdGpu (basePath @ e))}
        \<and> (distinct content \<longrightarrow>
             coll = map (\<lambda>e. (basePath @ e, new_device AmdGpu (basePath @ e)))
                        (filter (\<lambda>e. isOK fs (new_device AmdGpu (basePath @ e)))
                                (candidates content)))"
    using collect_keys[of fs content "[]"] collect_distinct[of content "[]" fs]
    by (simp add: findGpuDevices_def)
  show "e \<in> set (candidates content)
        \<longleftrightarrow> e \<in> set content \<and> (\<exists>d \<in> set ''0123456789''. e = ''card'' @ [d])"
    using regexp_card[of e] by (simp add: candidates_def)
  show "isOK fs (new_device AmdGpu p) \<longleftrightarrow> fs (p @ ''/device/gpu_busy_percent'') \<noteq> ReadThrows"
    by (rule isOK_amd)
  show "candidates [''card0'', ''card1'', ''renderD128''] = [''card0'', ''card1'']"
    by (simp add: candidates_def card_pattern_def)
qed

theorem discovery_keeps_probed_cards_witness:
  "distinct [''card0'', ''card1'', ''renderD128'']
   \<and> findGpuDevices demo_fs (ListResolves [''card0'', ''card1'', ''renderD128''])
       = Inr [(''/sys/class/drm/card0'', new_device AmdGpu ''/sys/class/drm/card0'')]"
proof -
  have d: "distinct [''card0'', ''card1'', ''renderD128'']" by simp
  have c: "candidates [''card0'', ''card1'', ''renderD128''] = [''card0'', ''card1'']"
    by (simp add: candidates_def card_pattern_def)
  have p: "isOK demo_fs (new_device AmdGpu ''/sys/class/drm/card0'')"
    "\<not> isOK demo_fs (new_device AmdGpu ''/sys/class/drm/card1'')"
    by (simp_all add: isOK_amd demo_fs_def)
  show ?thesis
    using discovery_keeps_probed_cards[of demo_fs "''x''" "[''card0'', ''card1'', ''renderD128'']"
            "''card0''" "''/sys/class/drm/card0''"] d
    by (auto simp: c p basePath_def)
qed

text \<open>
  Claim C9. An entry that is the word \<open>card\<close> followed by two or more characters, digits
  or not, does not match the pattern: it is no candidate of any listing, and its path is
  no key of the collection discovery returns, whatever the file system answers.
\<close>

theorem multi_digit_cards_excluded:
  assumes "2 \<le> length ds"
  shows "\<not> regexp_test card_pattern (''card'' @ ds)
       \<and> ''card'' @ ds \<notin> set (candidates content)
       \<and> (\<forall>coll. findGpuDevices fs (ListResolves content) = Inr coll
             \<longrightarrow> basePath @ ''card'' @ ds \<notin> fst ` set coll)"
proof -
  have a: "\<not> regexp_test card_pattern (''card'' @ ds)"
    using assms by (auto simp: regexp_card)
  then have b: "''card'' @ ds \<notin> set (candidates content)" by (simp add: candidates_def)
  have "basePath @ ''card'' @ ds \<notin> fst ` set (collect fs content [])"
    using b by (simp add: collect_keys)
  then show ?thesis using a b by (simp add: findGpuDevices_def)
qed

theorem multi_digit_cards_excluded_witness:
  "2 \<le> length ''10'' \<and> \<not> regexp_test card_pattern ''card10''
   \<and> findGpuDevices (\<lambda>p. ReadReturns ''5'') (ListResolves [''card10'', ''card2''])
       = Inr [(''/sys/class/drm/card2'', new_device AmdGpu ''/sys/class/drm/card2'')]"
proof -
  have h: "2 \<le> length ''10''" by simp
  have "findGpuDevices (\<lambda>p. ReadReturns ''5'') (ListResolves [''card10'', ''card2''])
       = Inr [(''/sys/class/drm/card2'', new_device AmdGpu ''/sys/class/drm/card2'')]"
    by code_simp
  then show ?thesis
    using multi_digit_cards_excluded[OF h, of "[]" "\<lambda>p. ReadReturns ''5''"] h by simp
qed

text \<open>
  Claim C8. A device whose name is unset answers \<open>getName\<close> with its path. A name lookup
  never throws: it ends in a promise that is fulfilled, rejected or left pending, and for a
  newly constructed device every lookup that does not fulfil the promise leaves the name
  unset, so \<open>getName\<close> still answers with the path.
\<close>

theorem getName_falls_back_to_path:
  "(name d = None \<longrightarrow> getName d = sysfsPath d)
   \<and> ((\<forall>n. snd (lookupName fs run (new_device c path)) \<noteq> Fulfilled n)
        \<longrightarrow> name (fst (lookupName fs run (new_device c path))) = None
          \<and> getName (fst (lookupName fs run (new_device c path))) = path)"
  by (auto simp: getName_def lookupName_def new_device_def Let_def
      split: gpu_class.splits read_result.splits proc_result.splits)

theorem getName_falls_back_to_path_witness:
  "name (new_device AmdGpu ''/sys/class/drm/card0'') = None
   \<and> getName (new_device AmdGpu ''/sys/class/drm/card0'') = ''/sys/class/drm/card0''
   \<and> getName (fst (lookupName (\<lambda>p. ReadReturns ''0x1002'') (\<lambda>argv. ExitFailure)
                      (new_device AmdGpu ''/sys/class/drm/card0''))) = ''/sys/class/drm/card0''"
proof -
  have a: "name (new_device AmdGpu ''/sys/class/drm/card0'') = None" by (simp add: new_device_def)
  have b: "\<forall>n. snd (lookupName (\<lambda>p. ReadReturns ''0x1002'') (\<lambda>argv. ExitFailure)
                      (new_device AmdGpu ''/sys/class/drm/card0'')) \<noteq> Fulfilled n"
    by (simp add: lookupName_def new_device_def)
  show ?thesis
    using getName_falls_back_to_path[of "new_device AmdGpu ''/sys/class/drm/card0''"
                "\<lambda>p. ReadReturns ''0x1002''" "\<lambda>argv. ExitFailure" AmdGpu
                "''/sys/class/drm/card0''"] a b
    by (simp add: new_device_def)
qed

section \<open>Claims about byte counts\<close>

text \<open>
  Claim C10. With the unit \<open>bytes\<close>, whatever the precision flag and the number formatter:
  a count above 0 and below 1 is printed as \<open>0 KB\<close>, and a count from 1 up to, not
  including, 1000 as \<open>< 1 KB\<close>. No exact count below one kilobyte is printed.
\<close>

theorem below_one_kilobyte:
  "(0 < x \<and> x < 1 \<longrightarrow> bytesToHumanString toFixed (Fin x) ''bytes'' imprecise = Inr ''0 KB'')
   \<and> (1 \<le> x \<and> x < 1000
        \<longrightarrow> bytesToHumanString toFixed (Fin x) ''bytes'' imprecise = Inr ''< 1 KB'')"
  by (simp add: bytesToHumanString_def)

theorem below_one_kilobyte_witness:
  "bytesToHumanString (\<lambda>v n. []) (Fin (1 / 2)) ''bytes'' False = Inr ''0 KB''
   \<and> bytesToHumanString (\<lambda>v n. []) (Fin 999) ''bytes'' True = Inr ''< 1 KB''"
  using below_one_kilobyte[of "1 / 2" "\<lambda>v n. []" False]
        below_one_kilobyte[of 999 "\<lambda>v n. []" True] by simp

end
